theory Spec2Isabelle
  imports Complex_Main "HOL-Library.Sublist"
begin

section \<open>Strings as the workflows use them\<close>

text \<open>
  Python strings are modelled as lists of characters. \<open>str.lower\<close> is modelled on the
  ASCII letters (other characters are left as they are), \<open>str.replace\<close> for the
  single-character arguments the source passes, and \<open>x in s\<close> on two strings as the
  contiguous-substring test it is.
\<close>

definition lower_char :: "char \<Rightarrow> char" where
  "lower_char c =
     (case map_of (zip ''ABCDEFGHIJKLMNOPQRSTUVWXYZ'' ''abcdefghijklmnopqrstuvwxyz'') c of
        None \<Rightarrow> c
      | Some d \<Rightarrow> d)"

definition lower :: "string \<Rightarrow> string" where
  "lower s = map lower_char s"

definition replace :: "char \<Rightarrow> char \<Rightarrow> string \<Rightarrow> string" where
  "replace old new s = map (\<lambda>c. if c = old then new else c) s"

fun startswith :: "string \<Rightarrow> string \<Rightarrow> bool" where
  "startswith s [] = True"
| "startswith [] (p # ps) = False"
| "startswith (c # cs) (p # ps) = (c = p \<and> startswith cs ps)"

fun str_in :: "string \<Rightarrow> string \<Rightarrow> bool" where
  "str_in x [] = (x = [])"
| "str_in x (c # cs) = (startswith (c # cs) x \<or> str_in x cs)"

section \<open>Exceptions\<close>

text \<open>
  The exception classes the source names. \<open>UnknownObjectException\<close> and
  \<open>RateLimitExceededException\<close> are subclasses of \<open>GithubException\<close>; every
  \<open>GithubException\<close> carries \<open>status\<close> and, when the response body has one,
  \<open>data["message"]\<close>.
\<close>

datatype github_class = UnknownObject | RateLimitExceeded | PlainGithub

datatype exn =
    GithubException github_class int "string option"
  | BadRequestError
  | InternalServerError
  | ConnectionError
  | AssertionError
  | TypeError
  | KeyError
  | OtherError

fun is_UnknownObjectException :: "exn \<Rightarrow> bool" where
  "is_UnknownObjectException (GithubException UnknownObject s m) = True"
| "is_UnknownObjectException e = False"

fun is_RateLimitExceededException :: "exn \<Rightarrow> bool" where
  "is_RateLimitExceededException (GithubException RateLimitExceeded s m) = True"
| "is_RateLimitExceededException e = False"

fun is_GithubException :: "exn \<Rightarrow> bool" where
  "is_GithubException (GithubException c s m) = True"
| "is_GithubException e = False"

fun status :: "exn \<Rightarrow> int" where
  "status (GithubException c s m) = s"
| "status e = 0"

fun data_message :: "exn \<Rightarrow> string option" where
  "data_message (GithubException c s m) = m"
| "data_message e = None"

section \<open>Data model\<close>

type_synonym datetime = int

record enrichment =
  l_embedding :: "real list"
  l_topics :: "string list"

datatype labels = LabelsNone | LabelsList "string list" | LabelsDict enrichment

record catalog_item =
  ItemId :: string
  Timestamp :: string
  Labels :: labels
  Categories :: "string list"
  Comment :: "string option"

text \<open>
  A repository object of the registry client: its attributes, and the answers of the
  three methods the workflows call on it.
\<close>

record repository =
  full_name :: string
  description :: "string option"
  stargazers_count :: int
  language :: "string option"
  updated_at :: datetime
  get_topics :: "exn + string list"
  get_languages :: "exn + (string \<times> int) list"
  get_readme :: "exn + string"

datatype step = Yield repository | Throw exn

text \<open>
  The collaborators and the constants of \<open>utils\<close>, which is not part of the source
  file: they are parameters of every workflow. \<open>search_repositories\<close> and
  \<open>get_items\<close> take the number of calls made before, so that the registry and the
  catalog may answer differently from one call to the next.
\<close>

record world =
  MAX_COMMENT_LENGTH :: nat
  generate_categories :: "string list \<Rightarrow> string list"
  tldr :: "string \<Rightarrow> exn + string"
  embedding :: "string \<Rightarrow> exn + real list"
  get_repo :: "string \<Rightarrow> exn + repository"
  search_repositories :: "nat \<Rightarrow> string \<Rightarrow> step list"
  get_items :: "nat \<Rightarrow> string \<Rightarrow> catalog_item list \<times> string"
  str_datetime :: "datetime \<Rightarrow> string"
  strftime_Z :: "datetime \<Rightarrow> string"

text \<open>
  What a workflow does to the outside: the catalog writes, the checkpoint writes, the
  pauses and the printed lines, in order. A printed line carries the exception whose
  text the source appends to it.
\<close>

datatype call =
    InsertItem catalog_item
  | UpdateItem string "string list option" "labels option" "string option" "string option"
  | DeleteItem string
  | DCreate string
  | DAdd string string
  | Sleep nat
  | Print string "exn option"

fun is_mutation :: "call \<Rightarrow> bool" where
  "is_mutation (InsertItem i) = True"
| "is_mutation (UpdateItem i c l t m) = True"
| "is_mutation (DeleteItem i) = True"
| "is_mutation c = False"

text \<open>A \<open>for\<close> loop over catalog items: an uncaught exception of the body ends it.\<close>

fun for_items ::
  "(catalog_item \<Rightarrow> exn option \<times> call list) \<Rightarrow> catalog_item list \<Rightarrow> exn option \<times> call list"
where
  "for_items body [] = (None, [])"
| "for_items body (x # xs) =
     (case body x of
        (Some e, tr) \<Rightarrow> (Some e, tr)
      | (None, tr) \<Rightarrow> (case for_items body xs of (r, tr') \<Rightarrow> (r, tr @ tr')))"

section \<open>Workflow B: \<open>upgrade_items\<close>\<close>

text \<open>The handlers of the \<open>try\<close> around \<open>get_repo\<close> (source lines 127 to 140).\<close>

definition on_get_repo_error :: "catalog_item \<Rightarrow> exn \<Rightarrow> exn option \<times> call list" where
  "on_get_repo_error item e =
     (if is_UnknownObjectException e then
        (None, [DeleteItem (ItemId item), Print (''DELETE '' @ ItemId item) (Some e)])
      else if is_GithubException e then
        (if status e = 451 then
           (None, [DeleteItem (ItemId item), Print (''DELETE '' @ ItemId item) (Some e)])
         else if status e \<noteq> 0 then
           (case data_message e of
              None \<Rightarrow> (Some KeyError, [])
            | Some m \<Rightarrow>
                if str_in m ''Repository access blocked'' then
                  (None, [DeleteItem (ItemId item), Print (''DELETE '' @ ItemId item) (Some e)])
                else (None, [Print (''FAIL '' @ ItemId item) (Some e)]))
         else (None, [Print (''FAIL '' @ ItemId item) (Some e)]))
      else (Some e, []))"

text \<open>\<open>max(languages, key=languages.get)\<close>: the first key with the largest value.\<close>

fun max_from :: "string \<times> int \<Rightarrow> (string \<times> int) list \<Rightarrow> string \<times> int" where
  "max_from best [] = best"
| "max_from best (kv # rest) = max_from (if snd best < snd kv then kv else best) rest"

definition primary_language :: "(string \<times> int) list \<Rightarrow> string list option" where
  "primary_language languages =
     (case languages of
        [] \<Rightarrow> None
      | kv # rest \<Rightarrow> Some [lower (fst (max_from kv rest))])"

text \<open>
  The body of the \<open>try\<close> that generates categories and labels (source lines 156 to
  164): the language, the description and its embedding, with the line it prints.
\<close>

definition generate ::
  "world \<Rightarrow> repository \<Rightarrow> (exn + string list option \<times> real list) \<times> call list"
where
  "generate w repo =
     (case get_languages repo of
        Inl e \<Rightarrow> (Inl e, [])
      | Inr languages \<Rightarrow>
          (case description repo of
             Some d \<Rightarrow>
               (case embedding w d of
                  Inl e \<Rightarrow> (Inl e, [])
                | Inr v \<Rightarrow> (Inr (primary_language languages, v), []))
           | None \<Rightarrow>
               (case get_readme repo of
                  Inl e \<Rightarrow> (Inl e, [])
                | Inr text \<Rightarrow>
                    (case tldr w text of
                       Inl e \<Rightarrow> (Inl e, [])
                     | Inr d \<Rightarrow>
                         (case embedding w d of
                            Inl e \<Rightarrow> (Inl e, [Print (''QWEN: '' @ d) None])
                          | Inr v \<Rightarrow>
                              (Inr (primary_language languages, v),
                               [Print (''QWEN: '' @ d) None]))))))"

text \<open>The handlers of that \<open>try\<close> (source lines 165 to 180).\<close>

definition on_generate_error ::
  "catalog_item \<Rightarrow> repository \<Rightarrow> exn \<Rightarrow> exn option \<times> call list"
where
  "on_generate_error item repo e =
     (if e = BadRequestError \<or> e = InternalServerError \<or> e = ConnectionError then
        (None, [Print (''FAIL '' @ full_name repo) (Some e)])
      else if is_UnknownObjectException e then
        (None, [DeleteItem (ItemId item), Print (''DELETE '' @ ItemId item) (Some e)])
      else if e = AssertionError then
        (None, [Print (''FAIL '' @ full_name repo) (Some e)])
      else (Some e, []))"

definition too_long :: "world \<Rightarrow> string option \<Rightarrow> bool" where
  "too_long w d = (case d of None \<Rightarrow> False | Some s \<Rightarrow> MAX_COMMENT_LENGTH w < length s)"

text \<open>The body of the loop over one page (source lines 123 to 193).\<close>

definition upgrade_item :: "world \<Rightarrow> catalog_item \<Rightarrow> exn option \<times> call list" where
  "upgrade_item w item =
     (case Labels item of
        LabelsList tags \<Rightarrow>
          (case get_repo w (replace CHR '':'' CHR ''/'' (ItemId item)) of
             Inl e \<Rightarrow> on_get_repo_error item e
           | Inr repo \<Rightarrow>
               if stargazers_count repo < 100 then
                 (None, [DeleteItem (ItemId item), Print (''DELETE '' @ full_name repo) None])
               else if too_long w (description repo) then
                 (None, [DeleteItem (ItemId item),
                         Print (''DELETE '' @ full_name repo @ '' with long description'') None])
               else
                 (case generate w repo of
                    (Inl e, out) \<Rightarrow>
                      (case on_generate_error item repo e of (r, tr) \<Rightarrow> (r, out @ tr))
                  | (Inr (lang, v), out) \<Rightarrow>
                      (case get_topics repo of
                         Inl e \<Rightarrow> (Some e, out)
                       | Inr ts \<Rightarrow>
                           (None,
                            out @
                            [UpdateItem (ItemId item) lang
                               (Some (LabelsDict \<lparr>l_embedding = v, l_topics = ts\<rparr>))
                               (Some (strftime_Z w (updated_at repo)))
                               (description repo),
                             Print (''UPDATE '' @ full_name repo) None]))))
      | LabelsNone \<Rightarrow> (None, [])
      | LabelsDict d \<Rightarrow> (None, []))"

text \<open>
  The paging loop (source lines 117 to 122). It runs until the catalog answers with an
  empty cursor, which it may never do: the first argument bounds the number of pages
  fetched, and \<open>None\<close> is a run that has not ended within it. The source tests the
  cursor before it enters the loop over the page.
\<close>

fun upgrade_items_from ::
  "world \<Rightarrow> nat \<Rightarrow> nat \<Rightarrow> string \<Rightarrow> (exn option \<times> call list) option"
where
  "upgrade_items_from w 0 n cursor = None"
| "upgrade_items_from w (Suc fuel) n cursor =
     (case get_items w n cursor of
        (items, cursor') \<Rightarrow>
          if cursor' = [] then Some (None, [])
          else
            (case for_items (upgrade_item w) items of
               (Some e, tr) \<Rightarrow> Some (Some e, tr)
             | (None, tr) \<Rightarrow>
                 (case upgrade_items_from w fuel (Suc n) cursor' of
                    None \<Rightarrow> None
                  | Some (r, tr') \<Rightarrow> Some (r, tr @ tr'))))"

definition upgrade_items :: "world \<Rightarrow> nat \<Rightarrow> (exn option \<times> call list) option" where
  "upgrade_items w fuel = upgrade_items_from w fuel 0 []"

section \<open>Workflow C: \<open>upgrade_embedding\<close>\<close>

text \<open>
  The body of the loop over one page (source lines 205 to 210). \<open>len\<close> of a missing
  comment and an item assignment into labels that are not a dictionary raise
  \<open>TypeError\<close>; the right-hand side \<open>embedding(item['Comment'])\<close> is evaluated before
  the assignment.
\<close>

definition refresh_item :: "world \<Rightarrow> catalog_item \<Rightarrow> exn option \<times> call list" where
  "refresh_item w item =
     (case Comment item of
        None \<Rightarrow> (Some TypeError, [])
      | Some c \<Rightarrow>
          if 0 < length c then
            (case embedding w c of
               Inl e \<Rightarrow> (Some e, [])
             | Inr v \<Rightarrow>
                 (case Labels item of
                    LabelsDict d \<Rightarrow>
                      (None,
                       [UpdateItem (ItemId item) None
                          (Some (LabelsDict (d\<lparr>l_embedding := v\<rparr>))) None None])
                  | LabelsList tags \<Rightarrow> (Some TypeError, [])
                  | LabelsNone \<Rightarrow> (Some TypeError, [])))
          else (None, []))"

fun upgrade_embedding_from ::
  "world \<Rightarrow> nat \<Rightarrow> nat \<Rightarrow> string \<Rightarrow> (exn option \<times> call list) option"
where
  "upgrade_embedding_from w 0 n cursor = None"
| "upgrade_embedding_from w (Suc fuel) n cursor =
     (case get_items w n cursor of
        (items, cursor') \<Rightarrow>
          if cursor' = [] then Some (None, [])
          else
            (case for_items (refresh_item w) items of
               (Some e, tr) \<Rightarrow> Some (Some e, tr)
             | (None, tr) \<Rightarrow>
                 (case upgrade_embedding_from w fuel (Suc n) cursor' of
                    None \<Rightarrow> None
                  | Some (r, tr') \<Rightarrow> Some (r, tr @ tr'))))"

definition upgrade_embedding :: "world \<Rightarrow> nat \<Rightarrow> (exn option \<times> call list) option" where
  "upgrade_embedding w fuel = upgrade_embedding_from w fuel 0 []"

section \<open>Workflow A: \<open>upsert_repos\<close>\<close>

text \<open>
  The checkpoint store: a dictionary of namespaces, each a dictionary of keys (their
  values are always \<open>None\<close> in the source, so a namespace is the set of its keys).
  \<open>dexists\<close> and \<open>dadd\<close> on a namespace that was never created raise \<open>KeyError\<close>.
\<close>

type_synonym pickledb = "string \<Rightarrow> string set option"

definition db_exists :: "pickledb \<Rightarrow> string \<Rightarrow> bool" where
  "db_exists db ns = (db ns \<noteq> None)"

definition dcreate :: "pickledb \<Rightarrow> string \<Rightarrow> pickledb" where
  "dcreate db ns = db(ns \<mapsto> {})"

definition dexists :: "pickledb \<Rightarrow> string \<Rightarrow> string \<Rightarrow> exn + bool" where
  "dexists db ns k = (case db ns of None \<Rightarrow> Inl KeyError | Some keys \<Rightarrow> Inr (k \<in> keys))"

definition dadd :: "pickledb \<Rightarrow> string \<Rightarrow> string \<Rightarrow> exn + pickledb" where
  "dadd db ns k =
     (case db ns of None \<Rightarrow> Inl KeyError | Some keys \<Rightarrow> Inr (db(ns \<mapsto> insert k keys)))"

definition repo_keys :: "pickledb \<Rightarrow> string set" where
  "repo_keys db = (case db ''repo'' of None \<Rightarrow> {} | Some keys \<Rightarrow> keys)"

text \<open>The labels of a candidate (source lines 61 to 63).\<close>

definition fetch_labels :: "string list \<Rightarrow> string option \<Rightarrow> string list" where
  "fetch_labels topics lang =
     (case lang of
        None \<Rightarrow> topics
      | Some l \<Rightarrow> if l \<notin> set topics then topics @ [lower l] else topics)"

definition truncate_comment :: "world \<Rightarrow> string option \<Rightarrow> string option" where
  "truncate_comment w d =
     (case d of
        None \<Rightarrow> None
      | Some s \<Rightarrow> if MAX_COMMENT_LENGTH w < length s then Some (take (MAX_COMMENT_LENGTH w) s) else Some s)"

definition item_id_of :: "string \<Rightarrow> string" where
  "item_id_of name = lower (replace CHR ''/'' CHR '':'' name)"

definition make_item :: "world \<Rightarrow> repository \<Rightarrow> string list \<Rightarrow> catalog_item" where
  "make_item w repo labels =
     \<lparr>ItemId = item_id_of (full_name repo),
      Timestamp = str_datetime w (updated_at repo),
      Labels = LabelsList labels,
      Categories = generate_categories w labels,
      Comment = truncate_comment w (description repo)\<rparr>"

text \<open>
  The body of the loop over the search results (source lines 55 to 76). The checkpoint
  store keeps what was written to it when an exception leaves the loop.
\<close>

definition upsert_candidate ::
  "world \<Rightarrow> pickledb \<Rightarrow> repository \<Rightarrow> exn option \<times> pickledb \<times> call list"
where
  "upsert_candidate w db repo =
     (case (if \<not> db_exists db ''repo'' then (dcreate db ''repo'', [DCreate ''repo''])
            else (db, [])) of
        (db1, created) \<Rightarrow>
          (case dexists db1 ''repo'' (full_name repo) of
             Inl e \<Rightarrow> (Some e, db1, created)
           | Inr True \<Rightarrow> (None, db1, created)
           | Inr False \<Rightarrow>
               (case get_topics repo of
                  Inl e \<Rightarrow> (Some e, db1, created)
                | Inr topics \<Rightarrow>
                    (case dadd db1 ''repo'' (full_name repo) of
                       Inl e \<Rightarrow>
                         (Some e, db1,
                          created @
                          [InsertItem (make_item w repo (fetch_labels topics (language repo)))])
                     | Inr db2 \<Rightarrow>
                         (None, db2,
                          created @
                          [InsertItem (make_item w repo (fetch_labels topics (language repo))),
                           DAdd ''repo'' (full_name repo)])))))"

fun upsert_steps ::
  "world \<Rightarrow> pickledb \<Rightarrow> step list \<Rightarrow> exn option \<times> pickledb \<times> call list"
where
  "upsert_steps w db [] = (None, db, [])"
| "upsert_steps w db (Throw e # rest) = (Some e, db, [])"
| "upsert_steps w db (Yield repo # rest) =
     (case upsert_candidate w db repo of
        (Some e, db', tr) \<Rightarrow> (Some e, db', tr)
      | (None, db', tr) \<Rightarrow>
          (case upsert_steps w db' rest of (r, db'', tr') \<Rightarrow> (r, db'', tr @ tr')))"

definition make_query :: "string option \<Rightarrow> string option \<Rightarrow> string" where
  "make_query topic lang =
     ''stars:>100''
     @ (case topic of None \<Rightarrow> [] | Some t \<Rightarrow> '' topic:'' @ t)
     @ (case lang of None \<Rightarrow> [] | Some l \<Rightarrow> '' language:'' @ l)"

definition search_and_upsert ::
  "world \<Rightarrow> nat \<Rightarrow> pickledb \<Rightarrow> string option \<Rightarrow> string option
     \<Rightarrow> exn option \<times> pickledb \<times> call list"
where
  "search_and_upsert w n db topic lang =
     (case upsert_steps w db (search_repositories w n (make_query topic lang)) of
        (r, db', tr) \<Rightarrow> (r, db', Print (''Upsert '' @ make_query topic lang) None # tr))"

text \<open>
  The retry loop around one topic (source lines 100 to 111). Every exception is caught,
  so the loop ends only by the \<open>break\<close> after the topic is checkpointed; the first
  argument bounds the number of attempts, and \<open>None\<close> is a loop that has not ended
  within it. The second argument counts the searches made so far.
\<close>

fun retry_topic ::
  "world \<Rightarrow> nat \<Rightarrow> nat \<Rightarrow> pickledb \<Rightarrow> string \<Rightarrow> (pickledb \<times> nat \<times> call list) option"
where
  "retry_topic w 0 n db topic = None"
| "retry_topic w (Suc fuel) n db topic =
     (case search_and_upsert w n db (Some topic) None of
        (None, db', tr) \<Rightarrow>
          (case dadd db' ''topic'' topic of
             Inr db'' \<Rightarrow> Some (db'', Suc n, tr @ [DAdd ''topic'' topic])
           | Inl e \<Rightarrow>
               (case retry_topic w fuel (Suc n) db' topic of
                  None \<Rightarrow> None
                | Some (d, m, tr') \<Rightarrow>
                    Some (d, m,
                      tr @ [Print [] (Some e),
                            Sleep (if is_RateLimitExceededException e then 1800 else 60)] @ tr')))
      | (Some e, db', tr) \<Rightarrow>
          (case retry_topic w fuel (Suc n) db' topic of
             None \<Rightarrow> None
           | Some (d, m, tr') \<Rightarrow>
               Some (d, m,
                 tr @ [Print [] (Some e),
                       Sleep (if is_RateLimitExceededException e then 1800 else 60)] @ tr')))"

text \<open>The loop over the topics (source lines 98 to 99), for the topics in any order.\<close>

fun upsert_topics ::
  "world \<Rightarrow> nat \<Rightarrow> nat \<Rightarrow> pickledb \<Rightarrow> string list
     \<Rightarrow> (exn option \<times> pickledb \<times> call list) option"
where
  "upsert_topics w fuel n db [] = Some (None, db, [])"
| "upsert_topics w fuel n db (topic # rest) =
     (case dexists db ''topic'' topic of
        Inl e \<Rightarrow> Some (Some e, db, [])
      | Inr True \<Rightarrow> upsert_topics w fuel n db rest
      | Inr False \<Rightarrow>
          (case retry_topic w fuel n db topic of
             None \<Rightarrow> None
           | Some (db', n', tr) \<Rightarrow>
               (case upsert_topics w fuel n' db' rest of
                  None \<Rightarrow> None
                | Some (r, db'', tr') \<Rightarrow> Some (r, db'', tr @ tr'))))"

text \<open>
  Loading the topics of the catalog (source lines 85 to 94): the set is kept as the list
  of its elements in the order they were first added. Iterating labels that are a
  dictionary yields its keys.
\<close>

definition labels_iter :: "labels \<Rightarrow> string list" where
  "labels_iter l =
     (case l of
        LabelsNone \<Rightarrow> []
      | LabelsList tags \<Rightarrow> tags
      | LabelsDict d \<Rightarrow> [''embedding'', ''topics''])"

definition set_add :: "string list \<Rightarrow> string \<Rightarrow> string list" where
  "set_add s x = (if x \<in> set s then s else s @ [x])"

definition add_item_topics :: "string list \<Rightarrow> catalog_item \<Rightarrow> string list" where
  "add_item_topics s item = foldl set_add s (labels_iter (Labels item))"

fun load_topics :: "world \<Rightarrow> nat \<Rightarrow> nat \<Rightarrow> string \<Rightarrow> string list \<Rightarrow> string list option" where
  "load_topics w 0 n cursor topics = None"
| "load_topics w (Suc fuel) n cursor topics =
     (case get_items w n cursor of
        (items, cursor') \<Rightarrow>
          if cursor' = [] then Some (foldl add_item_topics topics items)
          else load_topics w fuel (Suc n) cursor' (foldl add_item_topics topics items))"

definition upsert_repos ::
  "world \<Rightarrow> nat \<Rightarrow> pickledb \<Rightarrow> (exn option \<times> pickledb \<times> call list) option"
where
  "upsert_repos w fuel db =
     (case load_topics w fuel 0 [] [] of
        None \<Rightarrow> None
      | Some topics \<Rightarrow>
          (case (if \<not> db_exists db ''topic'' then (dcreate db ''topic'', [DCreate ''topic''])
                 else (db, [])) of
             (db1, created) \<Rightarrow>
               (case upsert_topics w fuel 0 db1 topics of
                  None \<Rightarrow> None
                | Some (r, db2, tr) \<Rightarrow> Some (r, db2, created @ tr))))"

section \<open>The catalog\<close>

text \<open>
  Modelled from the spec: the catalog behind \<open>insert_item\<close>, \<open>update_item\<close> and
  \<open>delete_item\<close>, whose client class is not in the source file. The spec gives
  \<open>updateItem(id, categories?, labels?, timestamp?, comment?)\<close>: an argument that is
  not passed leaves the field as it is.
\<close>

type_synonym catalog = "string \<Rightarrow> catalog_item option"

fun apply_call :: "catalog \<Rightarrow> call \<Rightarrow> catalog" where
  "apply_call cat (InsertItem i) = cat(ItemId i \<mapsto> i)"
| "apply_call cat (UpdateItem i c l t m) =
     (case cat i of
        None \<Rightarrow> cat
      | Some it \<Rightarrow>
          cat(i \<mapsto> it\<lparr>Categories := (case c of None \<Rightarrow> Categories it | Some x \<Rightarrow> x),
                        Labels := (case l of None \<Rightarrow> Labels it | Some x \<Rightarrow> x),
                        Timestamp := (case t of None \<Rightarrow> Timestamp it | Some x \<Rightarrow> x),
                        Comment := (case m of None \<Rightarrow> Comment it | Some x \<Rightarrow> Some x)\<rparr>))"
| "apply_call cat (DeleteItem i) = cat(i := None)"
| "apply_call cat c = cat"

definition apply_calls :: "catalog \<Rightarrow> call list \<Rightarrow> catalog" where
  "apply_calls cat tr = foldl apply_call cat tr"

text \<open>The calls of a trace, by kind.\<close>

fun is_delete :: "call \<Rightarrow> bool" where
  "is_delete (DeleteItem i) = True"
| "is_delete c = False"

fun is_update :: "call \<Rightarrow> bool" where
  "is_update (UpdateItem i c l t m) = True"
| "is_update c = False"

fun repo_adds :: "call list \<Rightarrow> string list" where
  "repo_adds [] = []"
| "repo_adds (DAdd ns k # cs) = (if ns = ''repo'' then k # repo_adds cs else repo_adds cs)"
| "repo_adds (c # cs) = repo_adds cs"

fun topic_adds :: "call list \<Rightarrow> string list" where
  "topic_adds [] = []"
| "topic_adds (DAdd ns k # cs) = (if ns = ''topic'' then k # topic_adds cs else topic_adds cs)"
| "topic_adds (c # cs) = topic_adds cs"

fun inserted_ids :: "call list \<Rightarrow> string list" where
  "inserted_ids [] = []"
| "inserted_ids (InsertItem i # cs) = ItemId i # inserted_ids cs"
| "inserted_ids (c # cs) = inserted_ids cs"

text \<open>
  The dedup invariant of a stretch of Workflow A that takes the checkpoint store from
  \<open>db\<close> to \<open>db'\<close> with the calls \<open>tr\<close>: no key is added twice, no key is added
  that the store already had, the store afterwards has just the old and the added keys,
  and the catalog inserts are those of the added keys, in order.
\<close>

definition dedup_inv :: "pickledb \<Rightarrow> pickledb \<Rightarrow> call list \<Rightarrow> bool" where
  "dedup_inv db db' tr =
     (distinct (repo_adds tr)
      \<and> set (repo_adds tr) \<inter> repo_keys db = {}
      \<and> repo_keys db' = repo_keys db \<union> set (repo_adds tr)
      \<and> inserted_ids tr = map item_id_of (repo_adds tr))"

section \<open>Example inputs\<close>

text \<open>
  A small world for the concrete runs below: the registry lookup, the catalog pages and
  the embedding service are given, the summary of a text is the text, and the longest
  comment has 1000 characters.
\<close>

definition world_of ::
  "(string \<Rightarrow> exn + repository) \<Rightarrow> (nat \<Rightarrow> string \<Rightarrow> catalog_item list \<times> string)
     \<Rightarrow> (string \<Rightarrow> exn + real list) \<Rightarrow> (nat \<Rightarrow> string \<Rightarrow> step list) \<Rightarrow> world"
where
  "world_of lookup pages emb search =
     \<lparr>MAX_COMMENT_LENGTH = 1000, generate_categories = (\<lambda>ls. ls),
      tldr = (\<lambda>s. Inr s), embedding = emb,
      get_repo = lookup, search_repositories = search, get_items = pages,
      str_datetime = (\<lambda>d. ''2024-01-01 00:00:00''),
      strftime_Z = (\<lambda>d. ''2024-01-01T00:00:00Z'')\<rparr>"

definition item_raw :: catalog_item where
  "item_raw =
     \<lparr>ItemId = ''a:b'', Timestamp = ''2023-01-01T00:00:00Z'',
      Labels = LabelsList [''rust'', ''cli''], Categories = [''rust''],
      Comment = Some ''hello''\<rparr>"

definition item_upgraded :: catalog_item where
  "item_upgraded =
     \<lparr>ItemId = ''a:b'', Timestamp = ''2023-01-01T00:00:00Z'',
      Labels = LabelsDict \<lparr>l_embedding = [1, 2], l_topics = [''rust'', ''cli'']\<rparr>,
      Categories = [''rust''], Comment = Some ''hello''\<rparr>"

definition repo_ab :: "int \<Rightarrow> (string \<times> int) list \<Rightarrow> repository" where
  "repo_ab stars langs =
     \<lparr>full_name = ''a/b'', description = Some ''hello'', stargazers_count = stars,
      language = Some ''Rust'', updated_at = 0, get_topics = Inr [''rust'', ''cli''],
      get_languages = Inr langs, get_readme = Inr ''# a/b''\<rparr>"

definition no_pages :: "nat \<Rightarrow> string \<Rightarrow> catalog_item list \<times> string" where
  "no_pages n cursor = ([], [])"

definition no_search :: "nat \<Rightarrow> string \<Rightarrow> step list" where
  "no_search n query = []"

definition embed_length :: "string \<Rightarrow> exn + real list" where
  "embed_length s = Inr [real (length s)]"

definition repo_cd :: repository where
  "repo_cd =
     \<lparr>full_name = ''C/d'', description = None, stargazers_count = 300,
      language = Some ''Python'', updated_at = 0, get_topics = Inr [''python''],
      get_languages = Inr [(''Python'', 5)], get_readme = Inr ''# c/d''\<rparr>"

definition rate_limited :: exn where
  "rate_limited = GithubException RateLimitExceeded 403 (Some ''API rate limit exceeded'')"

text \<open>A registry whose first search is cut short by the rate limit.\<close>

definition search_twice :: "nat \<Rightarrow> string \<Rightarrow> step list" where
  "search_twice n query =
     (if n = 0 then [Yield (repo_ab 150 []), Throw rate_limited]
      else [Yield (repo_ab 150 []), Yield repo_cd])"

text \<open>A catalog of one page: every fetch returns the items and the empty cursor.\<close>

definition one_page :: "catalog_item list \<Rightarrow> nat \<Rightarrow> string \<Rightarrow> catalog_item list \<times> string" where
  "one_page items n cursor = (items, [])"

definition world_a :: world where
  "world_a =
     world_of (\<lambda>n. Inl OtherError) (one_page [item_raw\<lparr>Labels := LabelsList [''rust'']\<rparr>])
       embed_length search_twice"

definition world_b :: world where
  "world_b = world_of (\<lambda>n. Inr (repo_ab 50 [])) (one_page [item_raw]) embed_length no_search"

definition world_c :: world where
  "world_c = world_of (\<lambda>n. Inl OtherError) (one_page [item_upgraded]) embed_length no_search"

text \<open>A catalog of two pages: the items with a cursor, then an empty final page.\<close>

definition two_pages :: "catalog_item list \<Rightarrow> nat \<Rightarrow> string \<Rightarrow> catalog_item list \<times> string" where
  "two_pages items n cursor = (if n = 0 then (items, ''next'') else ([], []))"

definition world_d :: world where
  "world_d = world_of (\<lambda>n. Inl OtherError) (two_pages [item_upgraded]) embed_length no_search"

definition world_e :: world where
  "world_e = world_of (\<lambda>n. Inl OtherError) (two_pages [item_raw]) embed_length no_search"

section \<open>Facts about the loops and the language choice\<close>

lemma world_of_simps:
  "MAX_COMMENT_LENGTH (world_of l p e s) = 1000"
  "get_repo (world_of l p e s) = l"
  "get_items (world_of l p e s) = p"
  "embedding (world_of l p e s) = e"
  "search_repositories (world_of l p e s) = s"
  "tldr (world_of l p e s) = (\<lambda>s. Inr s)"
  "generate_categories (world_of l p e s) = (\<lambda>ls. ls)"
  "str_datetime (world_of l p e s) = (\<lambda>d. ''2024-01-01 00:00:00'')"
  "strftime_Z (world_of l p e s) = (\<lambda>d. ''2024-01-01T00:00:00Z'')"
  by (simp_all add: world_of_def)

text \<open>The substring test is the library's \<open>sublist\<close>.\<close>

lemma startswith_prefix: "startswith s p = prefix p s"
  by (induction s p rule: startswith.induct) auto

lemma str_in_sublist: "str_in x s = sublist x s"
  by (induction s) (simp_all add: startswith_prefix sublist_Cons_right)

lemma registry_error_classes:
  "on_get_repo_error item (GithubException PlainGithub s (Some m)) =
     (if s = 451 \<or> (s \<noteq> 0 \<and> sublist m ''Repository access blocked'') then
        (None, [DeleteItem (ItemId item),
                Print (''DELETE '' @ ItemId item) (Some (GithubException PlainGithub s (Some m)))])
      else (None, [Print (''FAIL '' @ ItemId item) (Some (GithubException PlainGithub s (Some m)))]))"
  by (simp add: on_get_repo_error_def str_in_sublist)

lemma fetch_labels_appends:
  "fetch_labels topics lang =
     (case lang of None \<Rightarrow> topics
      | Some l \<Rightarrow> if l \<in> set topics then topics else topics @ [lower l])"
  by (simp add: fetch_labels_def split: option.splits)

lemma generate_no_mutation: "filter is_mutation (snd (generate w repo)) = []"
  by (simp add: generate_def split: sum.splits option.splits)

lemma for_items_continue:
  "fst (body x) = None \<Longrightarrow>
   for_items body (x # xs) = (fst (for_items body xs), snd (body x) @ snd (for_items body xs))"
  by (cases "body x") (simp split: prod.splits)

lemma for_items_abort:
  "fst (body x) = Some e \<Longrightarrow> for_items body (x # xs) = (Some e, snd (body x))"
  by (cases "body x") simp

lemma max_from_ge: "x \<in> set (b # xs) \<Longrightarrow> snd x \<le> snd (max_from b xs)"
proof (induction xs arbitrary: b x)
  case Nil
  then show ?case by simp
next
  case (Cons kv rest)
  have ih: "\<And>y c. y \<in> set (c # rest) \<Longrightarrow> snd y \<le> snd (max_from c rest)"
    by (rule Cons.IH)
  show ?case
  proof (cases "snd b < snd kv")
    case True
    have m: "max_from b (kv # rest) = max_from kv rest" using True by simp
    have k: "snd kv \<le> snd (max_from kv rest)" using ih [of kv kv] by simp
    show ?thesis unfolding m
    proof (cases "x = b")
      case True
      then show "snd x \<le> snd (max_from kv rest)" using k \<open>snd b < snd kv\<close> by simp
    next
      case False
      then have "x \<in> set (kv # rest)" using Cons.prems by simp
      then show "snd x \<le> snd (max_from kv rest)" by (rule ih)
    qed
  next
    case False
    have m: "max_from b (kv # rest) = max_from b rest" using False by simp
    have k: "snd b \<le> snd (max_from b rest)" using ih [of b b] by simp
    show ?thesis unfolding m
    proof (cases "x = kv")
      case True
      then show "snd x \<le> snd (max_from b rest)" using k \<open>\<not> snd b < snd kv\<close> by simp
    next
      case False
      then have "x \<in> set (b # rest)" using Cons.prems by auto
      then show "snd x \<le> snd (max_from b rest)" by (rule ih)
    qed
  qed
qed

lemma max_from_first:
  "\<exists>pre post. b # xs = pre @ max_from b xs # post
     \<and> (\<forall>x \<in> set pre. snd x < snd (max_from b xs))"
proof (induction xs arbitrary: b)
  case Nil
  show ?case by (intro exI [of _ "[]"]) simp
next
  case (Cons kv rest)
  show ?case
  proof (cases "snd b < snd kv")
    case True
    have m: "max_from b (kv # rest) = max_from kv rest" using True by simp
    obtain pre post where IH: "kv # rest = pre @ max_from kv rest # post"
      "\<forall>x \<in> set pre. snd x < snd (max_from kv rest)"
      using Cons.IH [of kv] by blast
    have "snd kv \<le> snd (max_from kv rest)" using max_from_ge [of kv kv rest] by simp
    then have lt: "snd b < snd (max_from kv rest)" using True by simp
    show ?thesis unfolding m
    proof (intro exI conjI)
      show "b # kv # rest = (b # pre) @ max_from kv rest # post" using IH(1) by simp
      show "\<forall>x \<in> set (b # pre). snd x < snd (max_from kv rest)" using IH(2) lt by simp
    qed
  next
    case False
    have m: "max_from b (kv # rest) = max_from b rest" using False by simp
    obtain pre post where IH: "b # rest = pre @ max_from b rest # post"
      "\<forall>x \<in> set pre. snd x < snd (max_from b rest)"
      using Cons.IH [of b] by blast
    show ?thesis unfolding m
    proof (cases pre)
      case Nil
      have e: "b # rest = max_from b rest # post"
        using IH(1) unfolding Nil by (simp only: append_Nil)
      have mb: "max_from b rest = b"
        using e by (rule list.inject [THEN iffD1, THEN conjunct1, symmetric])
      have r: "rest = post"
        using e by (rule list.inject [THEN iffD1, THEN conjunct2])
      show "\<exists>pre post. b # kv # rest = pre @ max_from b rest # post
          \<and> (\<forall>x \<in> set pre. snd x < snd (max_from b rest))"
      proof (intro exI conjI)
        show "b # kv # rest = [] @ max_from b rest # (kv # post)" using mb r by simp
        show "\<forall>x \<in> set []. snd x < snd (max_from b rest)" by simp
      qed
    next
      case (Cons p pre')
      have e: "b # rest = p # (pre' @ max_from b rest # post)"
        using IH(1) unfolding Cons by (simp only: append_Cons)
      have p: "p = b" "rest = pre' @ max_from b rest # post"
        using e by (rule list.inject [THEN iffD1, THEN conjunct1, symmetric],
                    rule list.inject [THEN iffD1, THEN conjunct2])
      have "snd b < snd (max_from b rest)" using IH(2) Cons p by simp
      then have lt: "snd kv < snd (max_from b rest)" using False by simp
      show "\<exists>pre post. b # kv # rest = pre @ max_from b rest # post
          \<and> (\<forall>x \<in> set pre. snd x < snd (max_from b rest))"
      proof (intro exI conjI)
        show "b # kv # rest = (b # kv # pre') @ max_from b rest # post" using p(2) by simp
        show "\<forall>x \<in> set (b # kv # pre'). snd x < snd (max_from b rest)"
          using IH(2) Cons p(1) lt by simp
      qed
    qed
  qed
qed

lemma primary_language_char:
  "(langs = [] \<longrightarrow> primary_language langs = None)
   \<and> (langs \<noteq> [] \<longrightarrow>
        (\<exists>pre k n post. langs = pre @ (k, n) # post
           \<and> (\<forall>x \<in> set pre. snd x < n) \<and> (\<forall>x \<in> set post. snd x \<le> n)
           \<and> primary_language langs = Some [lower k]))"
proof (cases langs)
  case Nil
  then show ?thesis by (simp add: primary_language_def)
next
  case (Cons b xs)
  obtain pre post where f: "b # xs = pre @ max_from b xs # post"
    "\<forall>x \<in> set pre. snd x < snd (max_from b xs)"
    using max_from_first [of b xs] by blast
  have g: "\<forall>x \<in> set post. snd x \<le> snd (max_from b xs)"
  proof
    fix x assume "x \<in> set post"
    then have "x \<in> set (pre @ max_from b xs # post)" by simp
    then have "x \<in> set (b # xs)" using f(1) by simp
    then show "snd x \<le> snd (max_from b xs)" by (rule max_from_ge)
  qed
  obtain k n where kn: "max_from b xs = (k, n)" by (cases "max_from b xs")
  have pl: "primary_language langs = Some [lower k]"
    using Cons kn by (simp add: primary_language_def)
  have sp: "langs = pre @ (k, n) # post" using f(1) kn Cons by simp
  have bounds: "(\<forall>x \<in> set pre. snd x < n) \<and> (\<forall>x \<in> set post. snd x \<le> n)"
    using f(2) g kn by simp
  have "\<exists>pre k n post. langs = pre @ (k, n) # post
           \<and> (\<forall>x \<in> set pre. snd x < n) \<and> (\<forall>x \<in> set post. snd x \<le> n)
           \<and> primary_language langs = Some [lower k]"
    using sp bounds pl by (intro exI [of _ pre] exI [of _ k] exI [of _ n] exI [of _ post]) simp
  then show ?thesis using Cons by simp
qed

section \<open>Workflow B, one item at a time\<close>

text \<open>
  The loop body on an item to delete. When the loop body of Workflow B runs on a raw
  item (labels a flat list) whose registry lookup raises not-found, or whose registry
  record has fewer than 100 stars, or whose source description is longer than
  \<open>MAX_COMMENT_LENGTH\<close>, the body ends normally, its only \<open>delete_item\<close> call is one
  call for this item, and it makes no \<open>update_item\<close> call.
\<close>

theorem deletion_correctness:
  assumes "Labels item = LabelsList tags"
    and "(\<exists>e. get_repo w (replace CHR '':'' CHR ''/'' (ItemId item)) = Inl e \<and> is_UnknownObjectException e)
       \<or> (\<exists>repo. get_repo w (replace CHR '':'' CHR ''/'' (ItemId item)) = Inr repo
            \<and> (stargazers_count repo < 100
               \<or> (\<exists>d. description repo = Some d \<and> MAX_COMMENT_LENGTH w < length d)))"
  shows "fst (upgrade_item w item) = None
       \<and> filter is_delete (snd (upgrade_item w item)) = [DeleteItem (ItemId item)]
       \<and> filter is_update (snd (upgrade_item w item)) = []"
  using assms
  by (auto simp: upgrade_item_def on_get_repo_error_def too_long_def)

theorem deletion_correctness_witness:
  "get_repo (world_of (\<lambda>n. Inr (repo_ab 50 [])) no_pages embed_length no_search)
     (replace CHR '':'' CHR ''/'' (ItemId item_raw)) = Inr (repo_ab 50 [])
   \<and> stargazers_count (repo_ab 50 []) < 100
   \<and> filter is_delete
       (snd (upgrade_item (world_of (\<lambda>n. Inr (repo_ab 50 [])) no_pages embed_length no_search)
          item_raw)) = [DeleteItem ''a:b'']
   \<and> filter is_update
       (snd (upgrade_item (world_of (\<lambda>n. Inr (repo_ab 50 [])) no_pages embed_length no_search)
          item_raw)) = []"
  using deletion_correctness [of item_raw "[''rust'', ''cli'']"
      "world_of (\<lambda>n. Inr (repo_ab 50 [])) no_pages embed_length no_search"]
  by (simp add: item_raw_def repo_ab_def world_of_simps)

text \<open>
  C4. Deletion correctness, at a failing input. Over a whole pass the deletion depends
  on the paging loop handing the item to the loop body, and the loop leaves before it
  runs over the final page. On a catalog of one page that holds a raw item whose
  registry record has 50 stars, the pass ends with no call: \<open>delete_item\<close> is never
  called for the item, where the claim has exactly one call.
\<close>

theorem deletion_missed_on_final_page:
  "Labels item_raw = LabelsList [''rust'', ''cli'']
   \<and> get_repo world_b (replace CHR '':'' CHR ''/'' (ItemId item_raw)) = Inr (repo_ab 50 [])
   \<and> stargazers_count (repo_ab 50 []) < 100
   \<and> get_items world_b 0 [] = ([item_raw], [])
   \<and> (\<forall>fuel. upgrade_items world_b (Suc fuel) = Some (None, []))"
  by (simp add: upgrade_items_def world_b_def one_page_def world_of_simps item_raw_def repo_ab_def)

text \<open>
  C5. Enrichment failures. When the loop body of Workflow B runs on a raw item that
  passed the lookup, the star and the length tests, and the generation of its language,
  description and embedding raises \<open>e\<close>: for a bad-request, an internal-server or a
  connection error the body ends normally with no catalog write and the loop goes on
  with the next item; for a not-found error the body ends normally, its only catalog
  write is the deletion of the item, and the loop goes on with the next item.
\<close>

theorem enrichment_failure_disposition:
  assumes "Labels item = LabelsList tags"
    and "get_repo w (replace CHR '':'' CHR ''/'' (ItemId item)) = Inr repo"
    and "100 \<le> stargazers_count repo"
    and "\<not> too_long w (description repo)"
    and "fst (generate w repo) = Inl e"
  shows "(e = BadRequestError \<or> e = InternalServerError \<or> e = ConnectionError \<longrightarrow>
           fst (upgrade_item w item) = None
         \<and> filter is_mutation (snd (upgrade_item w item)) = []
         \<and> for_items (upgrade_item w) (item # rest) =
             (fst (for_items (upgrade_item w) rest),
              snd (upgrade_item w item) @ snd (for_items (upgrade_item w) rest)))
       \<and> (is_UnknownObjectException e \<longrightarrow>
           fst (upgrade_item w item) = None
         \<and> filter is_mutation (snd (upgrade_item w item)) = [DeleteItem (ItemId item)]
         \<and> for_items (upgrade_item w) (item # rest) =
             (fst (for_items (upgrade_item w) rest),
              snd (upgrade_item w item) @ snd (for_items (upgrade_item w) rest)))"
proof -
  obtain out where g: "generate w repo = (Inl e, out)"
    using assms(5) by (cases "generate w repo") simp
  have out: "filter is_mutation out = []"
    using generate_no_mutation [of w repo] g by simp
  have skip: "fst (upgrade_item w item) = None \<and> filter is_mutation (snd (upgrade_item w item)) = []"
    if "e = BadRequestError \<or> e = InternalServerError \<or> e = ConnectionError"
    using that assms(1-4) g out
    by (auto simp: upgrade_item_def on_generate_error_def)
  have del: "fst (upgrade_item w item) = None
      \<and> filter is_mutation (snd (upgrade_item w item)) = [DeleteItem (ItemId item)]"
    if "is_UnknownObjectException e"
    using that assms(1-4) g out
    by (cases e) (auto simp: upgrade_item_def on_generate_error_def)
  show ?thesis
    using skip del for_items_continue [of "upgrade_item w" item rest] by blast
qed

theorem enrichment_failure_disposition_witness:
  "fst (generate (world_of (\<lambda>n. Inr (repo_ab 150 [])) no_pages (\<lambda>s. Inl ConnectionError) no_search)
          (repo_ab 150 [])) = Inl ConnectionError
   \<and> fst (upgrade_item
       (world_of (\<lambda>n. Inr (repo_ab 150 [])) no_pages (\<lambda>s. Inl ConnectionError) no_search)
       item_raw) = None
   \<and> filter is_mutation (snd (upgrade_item
       (world_of (\<lambda>n. Inr (repo_ab 150 [])) no_pages (\<lambda>s. Inl ConnectionError) no_search)
       item_raw)) = []"
  using enrichment_failure_disposition [of item_raw "[''rust'', ''cli'']"
      "world_of (\<lambda>n. Inr (repo_ab 150 [])) no_pages (\<lambda>s. Inl ConnectionError) no_search"
      "repo_ab 150 []" ConnectionError "[]"]
  by (simp add: item_raw_def repo_ab_def world_of_simps generate_def too_long_def)

text \<open>
  C6. Registry-error classification, at a failing input. The handler tests
  \<open>e.data["message"] in ("Repository access blocked")\<close>, and the parenthesised string
  is a string, not a tuple: the test holds for every contiguous part of that message.
  A lookup that fails with status 403 and the message \<open>blocked\<close> deletes the item,
  where the claim has a failure line only.
\<close>

theorem access_blocked_substring_deletes:
  "upgrade_item
     (world_of (\<lambda>n. Inl (GithubException PlainGithub 403 (Some ''blocked'')))
        no_pages embed_length no_search)
     item_raw =
   (None, [DeleteItem ''a:b'',
           Print ''DELETE a:b'' (Some (GithubException PlainGithub 403 (Some ''blocked'')))])"
  by (simp add: upgrade_item_def on_get_repo_error_def item_raw_def world_of_simps)

text \<open>
  C8. The update of a successful upgrade, as amended. When the lookup, the language
  breakdown, the description (the source's, or the summary of the readme when the source
  has none), its embedding and the topics all succeed for a raw item with at least 100
  stars and no overlong description, the only catalog write of the body is one update of
  the item: labels are the record of the embedding and the registry topics, the
  timestamp is the formatted \<open>updated_at\<close>, the comment is the source description as
  it is (not passed when the source has none), and the categories are not passed when
  the breakdown is empty and are otherwise the one lowercased language that is the first
  of the breakdown with the largest weight.
\<close>

theorem successful_upgrade_update:
  assumes "Labels item = LabelsList tags"
    and "get_repo w (replace CHR '':'' CHR ''/'' (ItemId item)) = Inr repo"
    and "100 \<le> stargazers_count repo"
    and "\<not> too_long w (description repo)"
    and "get_languages repo = Inr langs"
    and "description repo = Some d
         \<or> (description repo = None \<and> (\<exists>text. get_readme repo = Inr text \<and> tldr w text = Inr d))"
    and "embedding w d = Inr v"
    and "get_topics repo = Inr ts"
  shows "fst (upgrade_item w item) = None
       \<and> filter is_mutation (snd (upgrade_item w item)) =
           [UpdateItem (ItemId item) (primary_language langs)
              (Some (LabelsDict \<lparr>l_embedding = v, l_topics = ts\<rparr>))
              (Some (strftime_Z w (updated_at repo))) (description repo)]
       \<and> (langs = [] \<longrightarrow> primary_language langs = None)
       \<and> (langs \<noteq> [] \<longrightarrow>
            (\<exists>pre k n post. langs = pre @ (k, n) # post
               \<and> (\<forall>x \<in> set pre. snd x < n) \<and> (\<forall>x \<in> set post. snd x \<le> n)
               \<and> primary_language langs = Some [lower k]))"
proof -
  have "\<exists>out. generate w repo = (Inr (primary_language langs, v), out) \<and> filter is_mutation out = []"
    using assms(5-7) by (auto simp: generate_def)
  then have "fst (upgrade_item w item) = None
       \<and> filter is_mutation (snd (upgrade_item w item)) =
           [UpdateItem (ItemId item) (primary_language langs)
              (Some (LabelsDict \<lparr>l_embedding = v, l_topics = ts\<rparr>))
              (Some (strftime_Z w (updated_at repo))) (description repo)]"
    using assms(1-4,8) by (auto simp: upgrade_item_def)
  then show ?thesis using primary_language_char [of langs] by blast
qed

theorem successful_upgrade_update_witness:
  "filter is_mutation
     (snd (upgrade_item
        (world_of (\<lambda>n. Inr (repo_ab 150 [(''C'', 3), (''Rust'', 10), (''Go'', 10)]))
           no_pages embed_length no_search)
        item_raw)) =
   [UpdateItem ''a:b'' (Some [''rust''])
      (Some (LabelsDict \<lparr>l_embedding = [5], l_topics = [''rust'', ''cli'']\<rparr>))
      (Some ''2024-01-01T00:00:00Z'') (Some ''hello'')]"
  using successful_upgrade_update [of item_raw "[''rust'', ''cli'']"
      "world_of (\<lambda>n. Inr (repo_ab 150 [(''C'', 3), (''Rust'', 10), (''Go'', 10)]))
         no_pages embed_length no_search"
      "repo_ab 150 [(''C'', 3), (''Rust'', 10), (''Go'', 10)]"
      "[(''C'', 3), (''Rust'', 10), (''Go'', 10)]" "''hello''" "[5]" "[''rust'', ''cli'']"]
  by (simp add: item_raw_def repo_ab_def world_of_simps too_long_def embed_length_def
      primary_language_def lower_def lower_char_def)

text \<open>
  C8 as stated fails for a repository with an empty language breakdown: the lookup and
  the enrichment succeed, and the update passes no categories at all.
\<close>

theorem successful_upgrade_update_counterexample:
  "get_repo (world_of (\<lambda>n. Inr (repo_ab 150 [])) no_pages embed_length no_search) ''a/b''
     = Inr (repo_ab 150 [])
   \<and> fst (generate (world_of (\<lambda>n. Inr (repo_ab 150 [])) no_pages embed_length no_search)
        (repo_ab 150 [])) = Inr (None, [5])
   \<and> upgrade_item (world_of (\<lambda>n. Inr (repo_ab 150 [])) no_pages embed_length no_search)
        item_raw =
      (None,
       [UpdateItem ''a:b'' None
          (Some (LabelsDict \<lparr>l_embedding = [5], l_topics = [''rust'', ''cli'']\<rparr>))
          (Some ''2024-01-01T00:00:00Z'') (Some ''hello''),
        Print ''UPDATE a/b'' None])"
  by (simp add: upgrade_item_def generate_def item_raw_def repo_ab_def world_of_simps
      too_long_def embed_length_def primary_language_def replace_def)

section \<open>Workflow C, one item at a time\<close>

lemma refresh_item_calls:
  "c \<in> set (snd (refresh_item w item)) \<Longrightarrow>
     \<exists>d cm v. Labels item = LabelsDict d \<and> Comment item = Some cm \<and> cm \<noteq> []
        \<and> embedding w cm = Inr v
        \<and> c = UpdateItem (ItemId item) None (Some (LabelsDict (d\<lparr>l_embedding := v\<rparr>))) None None"
  by (auto simp: refresh_item_def split: option.splits if_splits sum.splits labels.splits)

lemma for_items_calls:
  "c \<in> set (snd (for_items body xs)) \<Longrightarrow> \<exists>x \<in> set xs. c \<in> set (snd (body x))"
proof (induction xs)
  case Nil
  then show ?case by simp
next
  case (Cons x xs)
  obtain r tr where b: "body x = (r, tr)" by (cases "body x")
  show ?case
  proof (cases r)
    case (Some e)
    then show ?thesis using Cons.prems b by auto
  next
    case None
    obtain r' tr' where f: "for_items body xs = (r', tr')" by (cases "for_items body xs")
    have "c \<in> set tr \<or> c \<in> set tr'" using Cons.prems b None f by auto
    then show ?thesis
    proof
      assume "c \<in> set tr"
      then show ?thesis using b by auto
    next
      assume "c \<in> set tr'"
      then have "\<exists>x \<in> set xs. c \<in> set (snd (body x))" using Cons.IH f by simp
      then show ?thesis by auto
    qed
  qed
qed

lemma upgrade_embedding_from_calls:
  "upgrade_embedding_from w fuel n cursor = Some (r, tr) \<Longrightarrow> c \<in> set tr \<Longrightarrow>
     \<exists>k cur item. item \<in> set (fst (get_items w k cur)) \<and> c \<in> set (snd (refresh_item w item))"
proof (induction fuel arbitrary: n cursor r tr)
  case 0
  then show ?case by simp
next
  case (Suc fuel)
  obtain items cursor' where g: "get_items w n cursor = (items, cursor')"
    by (cases "get_items w n cursor")
  show ?case
  proof (cases "cursor' = []")
    case True
    then show ?thesis using Suc.prems g by simp
  next
    case False
    obtain r1 tr1 where f: "for_items (refresh_item w) items = (r1, tr1)"
      by (cases "for_items (refresh_item w) items")
    have here: ?thesis if "c \<in> set tr1"
    proof -
      have "\<exists>x \<in> set items. c \<in> set (snd (refresh_item w x))"
        using for_items_calls [of c "refresh_item w" items] f that by simp
      then obtain x where "x \<in> set items" "c \<in> set (snd (refresh_item w x))" by blast
      then have "x \<in> set (fst (get_items w n cursor)) \<and> c \<in> set (snd (refresh_item w x))"
        using g by simp
      then show ?thesis by blast
    qed
    show ?thesis
    proof (cases r1)
      case (Some e)
      then have "tr = tr1" using Suc.prems(1) g False f by simp
      then show ?thesis using here Suc.prems(2) by simp
    next
      case None
      then obtain r2 tr2 where rec: "upgrade_embedding_from w fuel (Suc n) cursor' = Some (r2, tr2)"
        and tr: "tr = tr1 @ tr2"
        using Suc.prems(1) g False f by (auto split: option.splits)
      have "c \<in> set tr1 \<or> c \<in> set tr2" using Suc.prems(2) tr by simp
      then show ?thesis
      proof
        assume "c \<in> set tr1"
        then show ?thesis by (rule here)
      next
        assume "c \<in> set tr2"
        then show ?thesis using Suc.IH [OF rec] by simp
      qed
    qed
  qed
qed

lemma refresh_item_frame:
  assumes "cat (ItemId item) = Some item"
    and "Comment item = Some c" and "c \<noteq> []"
    and "Labels item = LabelsDict d"
    and "embedding w c = Inr v"
  shows "refresh_item w item =
           (None, [UpdateItem (ItemId item) None (Some (LabelsDict (d\<lparr>l_embedding := v\<rparr>))) None None])
       \<and> apply_calls cat (snd (refresh_item w item)) =
           cat(ItemId item \<mapsto> item\<lparr>Labels := LabelsDict (d\<lparr>l_embedding := v\<rparr>)\<rparr>)"
proof -
  have a: "refresh_item w item =
      (None, [UpdateItem (ItemId item) None (Some (LabelsDict (d\<lparr>l_embedding := v\<rparr>))) None None])"
    using assms(2-5) by (simp add: refresh_item_def)
  have b: "apply_calls cat (snd (refresh_item w item)) =
           cat(ItemId item \<mapsto> item\<lparr>Labels := LabelsDict (d\<lparr>l_embedding := v\<rparr>)\<rparr>)"
    using assms(1) by (simp add: a apply_calls_def)
  show ?thesis using a b by blast
qed

text \<open>
  C9. Frame property of the refresh, as amended. When the loop body of Workflow C runs
  on a catalog item with a non-empty comment and labels in the structured shape, and the
  embedding service answers, it makes exactly one call: an update of this item that
  passes only the labels, which are the item's own with the embedding replaced by the
  embedding of the comment. Applied to the catalog, the call changes nothing but that
  embedding: topics, categories, timestamp and comment stay as they were. Over a whole
  run of the refresh that ends, every call is such an update of an item that the catalog
  served, and none is a deletion.
\<close>

theorem refresh_frame:
  "(cat (ItemId item) = Some item \<and> Comment item = Some c \<and> c \<noteq> []
      \<and> Labels item = LabelsDict d \<and> embedding w c = Inr v \<longrightarrow>
        refresh_item w item =
          (None, [UpdateItem (ItemId item) None (Some (LabelsDict (d\<lparr>l_embedding := v\<rparr>))) None None])
      \<and> apply_calls cat (snd (refresh_item w item)) =
          cat(ItemId item \<mapsto> item\<lparr>Labels := LabelsDict (d\<lparr>l_embedding := v\<rparr>)\<rparr>))
 \<and> (upgrade_embedding w fuel = Some (r, tr) \<longrightarrow>
        filter is_delete tr = []
      \<and> (\<forall>call \<in> set tr. \<exists>k cur it d' cm v'.
            it \<in> set (fst (get_items w k cur))
          \<and> Labels it = LabelsDict d' \<and> Comment it = Some cm \<and> cm \<noteq> []
          \<and> embedding w cm = Inr v'
          \<and> call = UpdateItem (ItemId it) None (Some (LabelsDict (d'\<lparr>l_embedding := v'\<rparr>)))
                     None None))"
proof -
  have body: "cat (ItemId item) = Some item \<and> Comment item = Some c \<and> c \<noteq> []
      \<and> Labels item = LabelsDict d \<and> embedding w c = Inr v \<longrightarrow>
        refresh_item w item =
          (None, [UpdateItem (ItemId item) None (Some (LabelsDict (d\<lparr>l_embedding := v\<rparr>))) None None])
      \<and> apply_calls cat (snd (refresh_item w item)) =
          cat(ItemId item \<mapsto> item\<lparr>Labels := LabelsDict (d\<lparr>l_embedding := v\<rparr>)\<rparr>)"
    using refresh_item_frame [of cat item c d w v] by blast
  have pass: "filter is_delete tr = []
      \<and> (\<forall>call \<in> set tr. \<exists>k cur it d' cm v'.
            it \<in> set (fst (get_items w k cur))
          \<and> Labels it = LabelsDict d' \<and> Comment it = Some cm \<and> cm \<noteq> []
          \<and> embedding w cm = Inr v'
          \<and> call = UpdateItem (ItemId it) None (Some (LabelsDict (d'\<lparr>l_embedding := v'\<rparr>)))
                     None None)"
    if run: "upgrade_embedding w fuel = Some (r, tr)"
  proof -
    have each: "\<exists>k cur it d' cm v'.
            it \<in> set (fst (get_items w k cur))
          \<and> Labels it = LabelsDict d' \<and> Comment it = Some cm \<and> cm \<noteq> []
          \<and> embedding w cm = Inr v'
          \<and> call = UpdateItem (ItemId it) None (Some (LabelsDict (d'\<lparr>l_embedding := v'\<rparr>)))
                     None None"
      if mem: "call \<in> set tr" for call
    proof -
      have run': "upgrade_embedding_from w fuel 0 [] = Some (r, tr)"
        using run by (simp add: upgrade_embedding_def)
      obtain k cur it where it: "it \<in> set (fst (get_items w k cur))"
        "call \<in> set (snd (refresh_item w it))"
        using upgrade_embedding_from_calls [OF run' mem] by blast
      obtain d' cm v' where "Labels it = LabelsDict d'" "Comment it = Some cm" "cm \<noteq> []"
        "embedding w cm = Inr v'"
        "call = UpdateItem (ItemId it) None (Some (LabelsDict (d'\<lparr>l_embedding := v'\<rparr>))) None None"
        using refresh_item_calls [OF it(2)] by blast
      then show ?thesis using it(1) by blast
    qed
    have nodel: "\<not> is_delete call" if "call \<in> set tr" for call
      using each [OF that] by auto
    have "filter is_delete tr = []"
      using nodel by (simp add: filter_empty_conv)
    then show ?thesis using each by blast
  qed
  show ?thesis using body pass by blast
qed

theorem refresh_frame_witness:
  "upgrade_embedding world_d (Suc (Suc 0)) =
     Some (None,
       [UpdateItem ''a:b'' None
          (Some (LabelsDict \<lparr>l_embedding = [5], l_topics = [''rust'', ''cli'']\<rparr>)) None None])
   \<and> filter is_delete
       [UpdateItem ''a:b'' None
          (Some (LabelsDict \<lparr>l_embedding = [5], l_topics = [''rust'', ''cli'']\<rparr>)) None None] = []
   \<and> refresh_item world_d item_upgraded =
       (None,
        [UpdateItem ''a:b'' None
           (Some (LabelsDict \<lparr>l_embedding = [5], l_topics = [''rust'', ''cli'']\<rparr>)) None None])
   \<and> apply_calls [''a:b'' \<mapsto> item_upgraded] (snd (refresh_item world_d item_upgraded)) =
       [''a:b'' \<mapsto> item_upgraded\<lparr>Labels :=
          LabelsDict \<lparr>l_embedding = [5], l_topics = [''rust'', ''cli'']\<rparr>\<rparr>]"
proof -
  have run: "upgrade_embedding world_d (Suc (Suc 0)) =
     Some (None,
       [UpdateItem ''a:b'' None
          (Some (LabelsDict \<lparr>l_embedding = [5], l_topics = [''rust'', ''cli'']\<rparr>)) None None])"
    by (simp add: upgrade_embedding_def world_d_def two_pages_def world_of_simps refresh_item_def
        item_upgraded_def embed_length_def)
  have hyp: "[''a:b'' \<mapsto> item_upgraded] (ItemId item_upgraded) = Some item_upgraded
      \<and> Comment item_upgraded = Some ''hello'' \<and> ''hello'' \<noteq> []
      \<and> Labels item_upgraded = LabelsDict \<lparr>l_embedding = [1, 2], l_topics = [''rust'', ''cli'']\<rparr>
      \<and> embedding world_d ''hello'' = Inr [5]"
    by (simp add: item_upgraded_def world_d_def world_of_simps embed_length_def)
  note f = refresh_frame [where w = world_d and cat = "[''a:b'' \<mapsto> item_upgraded]"
      and item = item_upgraded and c = "''hello''"
      and d = "\<lparr>l_embedding = [1, 2], l_topics = [''rust'', ''cli'']\<rparr>" and v = "[5]"
      and fuel = "Suc (Suc 0)" and r = None
      and tr = "[UpdateItem ''a:b'' None
          (Some (LabelsDict \<lparr>l_embedding = [5], l_topics = [''rust'', ''cli'']\<rparr>)) None None]"]
  note body = f [THEN conjunct1, THEN mp, OF hyp]
  note pass = f [THEN conjunct2, THEN mp, OF run]
  have a: "refresh_item world_d item_upgraded =
       (None,
        [UpdateItem ''a:b'' None
           (Some (LabelsDict \<lparr>l_embedding = [5], l_topics = [''rust'', ''cli'']\<rparr>)) None None])"
    using body [THEN conjunct1] by (simp add: item_upgraded_def)
  have b: "apply_calls [''a:b'' \<mapsto> item_upgraded] (snd (refresh_item world_d item_upgraded)) =
       [''a:b'' \<mapsto> item_upgraded\<lparr>Labels :=
          LabelsDict \<lparr>l_embedding = [5], l_topics = [''rust'', ''cli'']\<rparr>\<rparr>]"
    using body [THEN conjunct2] by (simp add: item_upgraded_def)
  have c: "filter is_delete
       [UpdateItem ''a:b'' None
          (Some (LabelsDict \<lparr>l_embedding = [5], l_topics = [''rust'', ''cli'']\<rparr>)) None None] = []"
    using pass [THEN conjunct1] .
  show ?thesis using run a b c by (intro conjI)
qed

text \<open>
  C9 as stated fails for an item with a non-empty comment whose labels are still the flat
  list: the catalog serves it on a page that is not the last, the loop body raises
  \<open>TypeError\<close> on it, and the run ends with that exception and no update at all.
\<close>

theorem refresh_frame_counterexample:
  "Comment item_raw = Some ''hello''
   \<and> Labels item_raw = LabelsList [''rust'', ''cli'']
   \<and> get_items world_e 0 [] = ([item_raw], ''next'')
   \<and> refresh_item world_e item_raw = (Some TypeError, [])
   \<and> upgrade_embedding world_e (Suc (Suc 0)) = Some (Some TypeError, [])"
  by (simp add: upgrade_embedding_def world_e_def two_pages_def world_of_simps refresh_item_def
      item_raw_def embed_length_def)

text \<open>
  C10. The precondition of the refresh, as amended. The loop body of Workflow C raises
  \<open>TypeError\<close> for an item whose comment is missing, and for an item with a non-empty
  comment whose labels are not the structured record once the embedding service has
  answered (when that service raises instead, its exception is the one that leaves the
  body). An item whose comment is the empty string is skipped without an error, whatever
  its labels. An exception that leaves the body ends the loop over the page: the items
  after it are not visited.
\<close>

theorem refresh_precondition:
  "(Comment item = None \<longrightarrow> refresh_item w item = (Some TypeError, []))
 \<and> (\<forall>c v. Comment item = Some c \<and> c \<noteq> [] \<and> (\<forall>d. Labels item \<noteq> LabelsDict d)
       \<and> embedding w c = Inr v \<longrightarrow> refresh_item w item = (Some TypeError, []))
 \<and> (\<forall>c e. Comment item = Some c \<and> c \<noteq> [] \<and> embedding w c = Inl e
       \<longrightarrow> refresh_item w item = (Some e, []))
 \<and> (Comment item = Some [] \<longrightarrow> refresh_item w item = (None, []))
 \<and> (\<forall>e. fst (refresh_item w item) = Some e \<longrightarrow>
       for_items (refresh_item w) (item # rest) = (Some e, snd (refresh_item w item)))"
proof -
  have a: "Comment item = None \<longrightarrow> refresh_item w item = (Some TypeError, [])"
    by (simp add: refresh_item_def)
  have b: "\<forall>c v. Comment item = Some c \<and> c \<noteq> [] \<and> (\<forall>d. Labels item \<noteq> LabelsDict d)
       \<and> embedding w c = Inr v \<longrightarrow> refresh_item w item = (Some TypeError, [])"
    by (auto simp: refresh_item_def split: labels.splits)
  have c: "\<forall>c e. Comment item = Some c \<and> c \<noteq> [] \<and> embedding w c = Inl e
       \<longrightarrow> refresh_item w item = (Some e, [])"
    by (auto simp: refresh_item_def)
  have d: "Comment item = Some [] \<longrightarrow> refresh_item w item = (None, [])"
    by (simp add: refresh_item_def)
  have e: "\<forall>e. fst (refresh_item w item) = Some e \<longrightarrow>
       for_items (refresh_item w) (item # rest) = (Some e, snd (refresh_item w item))"
    using for_items_abort [of "refresh_item w" item _ rest] by blast
  show ?thesis using a b c d e by blast
qed

theorem refresh_precondition_witness:
  "refresh_item (world_of (\<lambda>n. Inl OtherError) no_pages embed_length no_search) item_raw
     = (Some TypeError, [])
   \<and> for_items (refresh_item (world_of (\<lambda>n. Inl OtherError) no_pages embed_length no_search))
       [item_raw, item_upgraded] = (Some TypeError, [])"
  using refresh_precondition [of item_raw
      "world_of (\<lambda>n. Inl OtherError) no_pages embed_length no_search" "[item_upgraded]"]
  by (simp add: item_raw_def world_of_simps embed_length_def)

text \<open>
  C10 as stated fails for a raw item whose comment is the empty string: the body skips
  it and raises nothing.
\<close>

theorem refresh_precondition_counterexample:
  "Labels (item_raw\<lparr>Comment := Some []\<rparr>) = LabelsList [''rust'', ''cli'']
   \<and> refresh_item (world_of (\<lambda>n. Inl OtherError) no_pages embed_length no_search)
        (item_raw\<lparr>Comment := Some []\<rparr>) = (None, [])"
  by (simp add: refresh_item_def item_raw_def)

section \<open>The paging loops\<close>

lemma final_page_not_processed:
  "snd (get_items w n cursor) = [] \<Longrightarrow>
     upgrade_items_from w (Suc fuel) n cursor = Some (None, [])
   \<and> upgrade_embedding_from w (Suc fuel) n cursor = Some (None, [])"
  by (cases "get_items w n cursor") simp

text \<open>
  C1. Paging, at a failing input. Both loops fetch a page, leave when the returned
  cursor is empty, and only then run over the page: the items of the final page are
  never handed to the loop body. On a catalog of one page, Workflow B makes no call for
  a raw item that its body would delete, and Workflow C makes no call for an item whose
  embedding its body would refresh; the loop of Workflow A that loads the topics tests
  the cursor after the page and does read the same page.
\<close>

theorem final_page_is_skipped:
  "get_items world_b 0 [] = ([item_raw], [])
   \<and> upgrade_item world_b item_raw = (None, [DeleteItem ''a:b'', Print ''DELETE a/b'' None])
   \<and> upgrade_items world_b (Suc (Suc 0)) = Some (None, [])
   \<and> load_topics world_b (Suc (Suc 0)) 0 [] [] = Some [''rust'', ''cli'']
   \<and> get_items world_c 0 [] = ([item_upgraded], [])
   \<and> refresh_item world_c item_upgraded =
       (None,
        [UpdateItem ''a:b'' None
           (Some (LabelsDict \<lparr>l_embedding = [5], l_topics = [''rust'', ''cli'']\<rparr>)) None None])
   \<and> upgrade_embedding world_c (Suc (Suc 0)) = Some (None, [])"
  by (simp add: world_b_def world_c_def world_of_simps one_page_def upgrade_items_def
      upgrade_embedding_def upgrade_item_def refresh_item_def item_raw_def item_upgraded_def
      repo_ab_def embed_length_def replace_def add_item_topics_def set_add_def labels_iter_def)

section \<open>Workflow A\<close>

lemmas evals = upsert_repos_def add_item_topics_def set_add_def labels_iter_def db_exists_def
  dcreate_def dexists_def dadd_def upsert_candidate_def search_and_upsert_def make_query_def
  make_item_def fetch_labels_def item_id_of_def lower_def lower_char_def replace_def
  truncate_comment_def world_of_simps search_twice_def one_page_def world_a_def repo_cd_def
  repo_ab_def item_raw_def rate_limited_def

lemma repo_adds_append: "repo_adds (a @ b) = repo_adds a @ repo_adds b"
  by (induction a rule: repo_adds.induct) simp_all

lemma topic_adds_append: "topic_adds (a @ b) = topic_adds a @ topic_adds b"
  by (induction a rule: topic_adds.induct) simp_all

lemma inserted_ids_append: "inserted_ids (a @ b) = inserted_ids a @ inserted_ids b"
  by (induction a rule: inserted_ids.induct) simp_all

lemma dedup_inv_refl: "dedup_inv db db []"
  by (simp add: dedup_inv_def)

lemma dedup_inv_trans:
  "dedup_inv db db' tr \<Longrightarrow> dedup_inv db' db'' tr' \<Longrightarrow> dedup_inv db db'' (tr @ tr')"
  by (auto simp: dedup_inv_def repo_adds_append inserted_ids_append)

lemma dedup_inv_silent:
  "repo_adds tr = [] \<Longrightarrow> inserted_ids tr = [] \<Longrightarrow> repo_keys db' = repo_keys db
     \<Longrightarrow> dedup_inv db db' tr"
  by (simp add: dedup_inv_def)

lemma candidate_inv:
  "upsert_candidate w db repo = (r, db', tr) \<Longrightarrow> dedup_inv db db' tr"
  by (auto simp: upsert_candidate_def dedup_inv_def db_exists_def dcreate_def dexists_def
      dadd_def repo_keys_def make_item_def
      split: if_splits option.splits sum.splits bool.splits)

lemma candidate_topic_adds:
  "upsert_candidate w db repo = (r, db', tr) \<Longrightarrow> topic_adds tr = []"
  by (auto simp: upsert_candidate_def db_exists_def dcreate_def dexists_def dadd_def
      split: if_splits option.splits sum.splits bool.splits)

lemma candidate_seen:
  "full_name repo \<in> repo_keys db \<Longrightarrow> upsert_candidate w db repo = (None, db, [])"
  by (auto simp: upsert_candidate_def db_exists_def dexists_def repo_keys_def
      split: option.splits)

lemma steps_inv:
  "upsert_steps w db steps = (r, db', tr) \<Longrightarrow> dedup_inv db db' tr"
proof (induction steps arbitrary: db r db' tr)
  case Nil
  then show ?case by (simp add: dedup_inv_refl)
next
  case (Cons s rest)
  show ?case
  proof (cases s)
    case (Throw e)
    then show ?thesis using Cons.prems by (auto simp: dedup_inv_refl)
  next
    case (Yield repo)
    obtain r1 db1 tr1 where c: "upsert_candidate w db repo = (r1, db1, tr1)"
      by (cases "upsert_candidate w db repo") auto
    have i1: "dedup_inv db db1 tr1" using c by (rule candidate_inv)
    show ?thesis
    proof (cases r1)
      case (Some e)
      then show ?thesis using Cons.prems Yield c i1 by simp
    next
      case None
      obtain r2 db2 tr2 where s2: "upsert_steps w db1 rest = (r2, db2, tr2)"
        by (cases "upsert_steps w db1 rest") auto
      have i2: "dedup_inv db1 db2 tr2" using s2 by (rule Cons.IH)
      have "db' = db2" "tr = tr1 @ tr2" using Cons.prems Yield c None s2 by simp_all
      then show ?thesis using dedup_inv_trans [OF i1 i2] by simp
    qed
  qed
qed

lemma steps_topic_adds:
  "upsert_steps w db steps = (r, db', tr) \<Longrightarrow> topic_adds tr = []"
proof (induction steps arbitrary: db r db' tr)
  case Nil
  then show ?case by simp
next
  case (Cons s rest)
  show ?case
  proof (cases s)
    case (Throw e)
    then show ?thesis using Cons.prems by auto
  next
    case (Yield repo)
    obtain r1 db1 tr1 where c: "upsert_candidate w db repo = (r1, db1, tr1)"
      by (cases "upsert_candidate w db repo") auto
    have i1: "topic_adds tr1 = []" using c by (rule candidate_topic_adds)
    show ?thesis
    proof (cases r1)
      case (Some e)
      then show ?thesis using Cons.prems Yield c i1 by simp
    next
      case None
      obtain r2 db2 tr2 where s2: "upsert_steps w db1 rest = (r2, db2, tr2)"
        by (cases "upsert_steps w db1 rest") auto
      have i2: "topic_adds tr2 = []" using s2 by (rule Cons.IH)
      have "tr = tr1 @ tr2" using Cons.prems Yield c None s2 by simp
      then show ?thesis using i1 i2 by (simp add: topic_adds_append)
    qed
  qed
qed

lemma search_inv:
  "search_and_upsert w n db topic lang = (r, db', tr) \<Longrightarrow> dedup_inv db db' tr"
proof -
  assume a: "search_and_upsert w n db topic lang = (r, db', tr)"
  obtain r1 db1 tr1 where
    s: "upsert_steps w db (search_repositories w n (make_query topic lang)) = (r1, db1, tr1)"
    by (cases "upsert_steps w db (search_repositories w n (make_query topic lang))") auto
  have i: "dedup_inv db db1 tr1" using s by (rule steps_inv)
  have "db' = db1" "tr = Print (''Upsert '' @ make_query topic lang) None # tr1"
    using a s by (simp_all add: search_and_upsert_def)
  then show ?thesis using i by (simp add: dedup_inv_def)
qed

lemma search_topic_adds:
  "search_and_upsert w n db topic lang = (r, db', tr) \<Longrightarrow> topic_adds tr = []"
proof -
  assume a: "search_and_upsert w n db topic lang = (r, db', tr)"
  obtain r1 db1 tr1 where
    s: "upsert_steps w db (search_repositories w n (make_query topic lang)) = (r1, db1, tr1)"
    by (cases "upsert_steps w db (search_repositories w n (make_query topic lang))") auto
  have i: "topic_adds tr1 = []" using s by (rule steps_topic_adds)
  have "tr = Print (''Upsert '' @ make_query topic lang) None # tr1"
    using a s by (simp add: search_and_upsert_def)
  then show ?thesis using i by simp
qed

lemma dadd_topic_inv:
  "dadd db ''topic'' t = Inr db' \<Longrightarrow> dedup_inv db db' [DAdd ''topic'' t]"
  by (auto simp: dadd_def dedup_inv_def repo_keys_def split: option.splits)

lemma pause_inv: "dedup_inv db db [Print s e, Sleep k]"
  by (simp add: dedup_inv_def)


lemma retry_inv:
  "retry_topic w fuel n db t = Some (db', n', tr) \<Longrightarrow> dedup_inv db db' tr"
proof (induction fuel arbitrary: n db db' n' tr)
  case 0
  then show ?case by simp
next
  case (Suc fuel)
  obtain r1 db1 tr1 where s: "search_and_upsert w n db (Some t) None = (r1, db1, tr1)"
    by (cases "search_and_upsert w n db (Some t) None") auto
  have i1: "dedup_inv db db1 tr1" using s by (rule search_inv)
  have again: "dedup_inv db db' tr"
    if rec: "retry_topic w fuel (Suc n) db1 t = Some (db', n', tr2)"
      and tr: "tr = tr1 @ [Print [] (Some e), Sleep k] @ tr2" for e k tr2
  proof -
    have i2: "dedup_inv db1 db' tr2" using rec by (rule Suc.IH)
    have "dedup_inv db1 db' ([Print [] (Some e), Sleep k] @ tr2)"
      using dedup_inv_trans [OF pause_inv i2] .
    then show ?thesis unfolding tr using dedup_inv_trans [OF i1] by blast
  qed
  show ?case
  proof (cases r1)
    case None
    show ?thesis
    proof (cases "dadd db1 ''topic'' t")
      case (Inr db2)
      then have "db' = db2" "tr = tr1 @ [DAdd ''topic'' t]"
        using Suc.prems s None by simp_all
      then show ?thesis using dedup_inv_trans [OF i1 dadd_topic_inv [OF Inr]] by simp
    next
      case (Inl e)
      then obtain tr2 where "retry_topic w fuel (Suc n) db1 t = Some (db', n', tr2)"
        "tr = tr1 @ [Print [] (Some e),
              Sleep (if is_RateLimitExceededException e then 1800 else 60)] @ tr2"
        using Suc.prems s None by (auto split: option.splits)
      then show ?thesis by (rule again)
    qed
  next
    case (Some e)
    then obtain tr2 where "retry_topic w fuel (Suc n) db1 t = Some (db', n', tr2)"
      "tr = tr1 @ [Print [] (Some e),
            Sleep (if is_RateLimitExceededException e then 1800 else 60)] @ tr2"
      using Suc.prems s by (auto split: option.splits)
    then show ?thesis by (rule again)
  qed
qed

lemma topics_inv:
  "upsert_topics w fuel n db ts = Some (r, db', tr) \<Longrightarrow> dedup_inv db db' tr"
proof (induction ts arbitrary: n db r db' tr)
  case Nil
  then show ?case by (simp add: dedup_inv_refl)
next
  case (Cons t rest)
  show ?case
  proof (cases "dexists db ''topic'' t")
    case (Inl e)
    then show ?thesis using Cons.prems by (auto simp: dedup_inv_refl)
  next
    case (Inr seen)
    show ?thesis
    proof (cases seen)
      case True
      then have "upsert_topics w fuel n db rest = Some (r, db', tr)"
        using Cons.prems Inr by simp
      then show ?thesis by (rule Cons.IH)
    next
      case False
      obtain db1 n1 tr1 tr2 where
        a: "retry_topic w fuel n db t = Some (db1, n1, tr1)"
        and b: "upsert_topics w fuel n1 db1 rest = Some (r, db', tr2)"
        and c: "tr = tr1 @ tr2"
        using Cons.prems Inr False by (auto split: option.splits)
      show ?thesis unfolding c
        using dedup_inv_trans [OF retry_inv [OF a] Cons.IH [OF b]] .
    qed
  qed
qed

text \<open>
  C2. Dedup invariant. In a run of Workflow A that ends, no discovery key is added to
  the \<open>repo\<close> namespace twice, no key is added that the namespace had before the run,
  and the catalog inserts of the run are exactly those of the added keys, one each and
  in order; and a candidate whose key is in the namespace when the loop body reaches it
  is skipped with no call at all.
\<close>

theorem dedup_invariant:
  assumes "upsert_repos w fuel db = Some (r, db', tr)"
  shows "distinct (repo_adds tr)
       \<and> set (repo_adds tr) \<inter> repo_keys db = {}
       \<and> inserted_ids tr = map item_id_of (repo_adds tr)
       \<and> (full_name repo \<in> repo_keys db0 \<longrightarrow> upsert_candidate w db0 repo = (None, db0, []))"
proof -
  obtain topics where l: "load_topics w fuel 0 [] [] = Some topics"
    using assms by (auto simp: upsert_repos_def split: option.splits)
  obtain db1 created where
    c: "(if \<not> db_exists db ''topic'' then (dcreate db ''topic'', [DCreate ''topic''])
         else (db, [])) = (db1, created)"
    by (cases "if \<not> db_exists db ''topic'' then (dcreate db ''topic'', [DCreate ''topic''])
         else (db, [])") auto
  obtain tr2 where t: "upsert_topics w fuel 0 db1 topics = Some (r, db', tr2)"
    and tr: "tr = created @ tr2"
    using assms l c by (auto simp: upsert_repos_def split: option.splits)
  have i0: "dedup_inv db db1 created"
    using c by (auto simp: dedup_inv_def dcreate_def repo_keys_def split: if_splits)
  have "dedup_inv db db' tr"
    unfolding tr using dedup_inv_trans [OF i0 topics_inv [OF t]] .
  then show ?thesis using candidate_seen [of repo db0 w] by (simp add: dedup_inv_def)
qed

theorem dedup_invariant_witness:
  "\<exists>db' tr. upsert_repos world_a (Suc (Suc 0)) Map.empty = Some (None, db', tr)
     \<and> repo_adds tr = [''a/b'', ''C/d'']
     \<and> distinct (repo_adds tr)
     \<and> inserted_ids tr = [''a:b'', ''c:d'']
     \<and> upsert_candidate world_a [''repo'' \<mapsto> {''a/b''}] (repo_ab 150 []) =
         (None, [''repo'' \<mapsto> {''a/b''}], [])"
proof -
  have "map_option (\<lambda>(r, d, tr). (r, repo_adds tr, inserted_ids tr))
          (upsert_repos world_a (Suc (Suc 0)) Map.empty)
        = Some (None, [''a/b'', ''C/d''], [''a:b'', ''c:d''])"
    by (simp add: evals)
  then obtain db' tr where run: "upsert_repos world_a (Suc (Suc 0)) Map.empty = Some (None, db', tr)"
    and adds: "repo_adds tr = [''a/b'', ''C/d'']"
    and ins: "inserted_ids tr = [''a:b'', ''c:d'']"
    by (cases "upsert_repos world_a (Suc (Suc 0)) Map.empty") auto
  have d: "distinct (repo_adds tr)"
    using dedup_invariant [OF run] by (rule conjunct1)
  have "full_name (repo_ab 150 []) \<in> repo_keys [''repo'' \<mapsto> {''a/b''}]"
    by (simp add: repo_ab_def repo_keys_def)
  then have s: "upsert_candidate world_a [''repo'' \<mapsto> {''a/b''}] (repo_ab 150 []) =
         (None, [''repo'' \<mapsto> {''a/b''}], [])"
    using dedup_invariant [OF run, where repo = "repo_ab 150 []"
        and ?db0.0 = "[''repo'' \<mapsto> {''a/b''}]"]
    by simp
  show ?thesis
  proof (intro exI conjI)
    show "upsert_repos world_a (Suc (Suc 0)) Map.empty = Some (None, db', tr)" by (rule run)
    show "repo_adds tr = [''a/b'', ''C/d'']" by (rule adds)
    show "distinct (repo_adds tr)" by (rule d)
    show "inserted_ids tr = [''a:b'', ''c:d'']" by (rule ins)
    show "upsert_candidate world_a [''repo'' \<mapsto> {''a/b''}] (repo_ab 150 []) =
         (None, [''repo'' \<mapsto> {''a/b''}], [])" by (rule s)
  qed
qed

lemma retry_topic_last_attempt:
  "retry_topic w fuel n db t = Some (db', n', tr) \<Longrightarrow>
     \<exists>k dbk dbk' trk pre.
        n' = Suc (n + k)
      \<and> search_and_upsert w (n + k) dbk (Some t) None = (None, dbk', trk)
      \<and> tr = pre @ trk @ [DAdd ''topic'' t]
      \<and> topic_adds (pre @ trk) = []"
proof (induction fuel arbitrary: n db db' n' tr)
  case 0
  then show ?case by simp
next
  case (Suc fuel)
  obtain r1 db1 tr1 where s: "search_and_upsert w n db (Some t) None = (r1, db1, tr1)"
    by (cases "search_and_upsert w n db (Some t) None") auto
  have t1: "topic_adds tr1 = []" using s by (rule search_topic_adds)
  have again: ?case
    if rec: "retry_topic w fuel (Suc n) db1 t = Some (db', n', tr2)"
      and tr: "tr = tr1 @ [Print [] (Some e), Sleep c] @ tr2" for e c tr2
  proof -
    obtain k dbk dbk' trk pre where ih:
      "n' = Suc (Suc n + k)"
      "search_and_upsert w (Suc n + k) dbk (Some t) None = (None, dbk', trk)"
      "tr2 = pre @ trk @ [DAdd ''topic'' t]"
      "topic_adds (pre @ trk) = []"
      using Suc.IH [OF rec] by blast
    show ?thesis
    proof (intro exI conjI)
      show "n' = Suc (n + Suc k)" using ih(1) by simp
      show "search_and_upsert w (n + Suc k) dbk (Some t) None = (None, dbk', trk)"
        using ih(2) by simp
      show "tr = (tr1 @ [Print [] (Some e), Sleep c] @ pre) @ trk @ [DAdd ''topic'' t]"
        using tr ih(3) by simp
      show "topic_adds ((tr1 @ [Print [] (Some e), Sleep c] @ pre) @ trk) = []"
        using ih(4) t1 by (simp add: topic_adds_append)
    qed
  qed
  show ?case
  proof (cases r1)
    case None
    show ?thesis
    proof (cases "dadd db1 ''topic'' t")
      case (Inr db2)
      then have e: "n' = Suc n" "tr = tr1 @ [DAdd ''topic'' t]"
        using Suc.prems s None by simp_all
      show ?thesis
      proof (intro exI conjI)
        show "n' = Suc (n + 0)" using e(1) by simp
        show "search_and_upsert w (n + 0) db (Some t) None = (None, db1, tr1)"
          using s None by simp
        show "tr = [] @ tr1 @ [DAdd ''topic'' t]" using e(2) by simp
        show "topic_adds ([] @ tr1) = []" using t1 by simp
      qed
    next
      case (Inl e)
      then obtain tr2 where "retry_topic w fuel (Suc n) db1 t = Some (db', n', tr2)"
        "tr = tr1 @ [Print [] (Some e),
              Sleep (if is_RateLimitExceededException e then 1800 else 60)] @ tr2"
        using Suc.prems s None by (auto split: option.splits)
      then show ?thesis by (rule again)
    qed
  next
    case (Some e)
    then obtain tr2 where "retry_topic w fuel (Suc n) db1 t = Some (db', n', tr2)"
      "tr = tr1 @ [Print [] (Some e),
            Sleep (if is_RateLimitExceededException e then 1800 else 60)] @ tr2"
      using Suc.prems s by (auto split: option.splits)
    then show ?thesis by (rule again)
  qed
qed

text \<open>
  C3. Retry policy. When an attempt on a topic raises \<open>e\<close>, the loop prints it, pauses
  1800 seconds if \<open>e\<close> is the rate-limit exception and 60 seconds otherwise, and runs
  the same topic again with a fresh search, with no topic checkpoint in between. When an
  attempt raises nothing, the topic is added to the \<open>topic\<close> namespace and the loop
  ends. Whenever the loop ends, its last attempt raised nothing, the addition of the
  topic is the last call, and it is the only addition to the \<open>topic\<close> namespace.
\<close>

theorem retry_policy:
  "(search_and_upsert w n db (Some t) None = (Some e, db1, tr1) \<longrightarrow>
      retry_topic w (Suc fuel) n db t =
        map_option
          (\<lambda>(d, m, tr'). (d, m,
              tr1 @ [Print [] (Some e),
                     Sleep (if is_RateLimitExceededException e then 1800 else 60)] @ tr'))
          (retry_topic w fuel (Suc n) db1 t))
 \<and> (search_and_upsert w n db (Some t) None = (None, db1, tr1) \<and> db1 ''topic'' = Some ks \<longrightarrow>
      retry_topic w (Suc fuel) n db t =
        Some (db1(''topic'' \<mapsto> insert t ks), Suc n, tr1 @ [DAdd ''topic'' t]))
 \<and> (retry_topic w fuel' n db t = Some (db', n', tr) \<longrightarrow>
      (\<exists>k dbk dbk' trk pre.
          n' = Suc (n + k)
        \<and> search_and_upsert w (n + k) dbk (Some t) None = (None, dbk', trk)
        \<and> tr = pre @ trk @ [DAdd ''topic'' t]
        \<and> topic_adds (pre @ trk) = []))"
proof -
  have a: "search_and_upsert w n db (Some t) None = (Some e, db1, tr1) \<longrightarrow>
      retry_topic w (Suc fuel) n db t =
        map_option
          (\<lambda>(d, m, tr'). (d, m,
              tr1 @ [Print [] (Some e),
                     Sleep (if is_RateLimitExceededException e then 1800 else 60)] @ tr'))
          (retry_topic w fuel (Suc n) db1 t)"
    by (auto split: option.splits)
  have b: "search_and_upsert w n db (Some t) None = (None, db1, tr1) \<and> db1 ''topic'' = Some ks \<longrightarrow>
      retry_topic w (Suc fuel) n db t =
        Some (db1(''topic'' \<mapsto> insert t ks), Suc n, tr1 @ [DAdd ''topic'' t])"
    by (simp add: dadd_def)
  have c: "retry_topic w fuel' n db t = Some (db', n', tr) \<longrightarrow>
      (\<exists>k dbk dbk' trk pre.
          n' = Suc (n + k)
        \<and> search_and_upsert w (n + k) dbk (Some t) None = (None, dbk', trk)
        \<and> tr = pre @ trk @ [DAdd ''topic'' t]
        \<and> topic_adds (pre @ trk) = [])"
    using retry_topic_last_attempt [of w fuel' n db t db' n' tr] by blast
  show ?thesis using a b c by blast
qed

theorem retry_policy_witness:
  "fst (search_and_upsert world_a 0 [''topic'' \<mapsto> {}] (Some ''rust'') None) = Some rate_limited
   \<and> map_option (\<lambda>(d, m, tr). (m, tr))
       (retry_topic world_a (Suc (Suc 0)) 0 [''topic'' \<mapsto> {}] ''rust'') =
     Some (2,
       [Print ''Upsert stars:>100 topic:rust'' None, DCreate ''repo'',
        InsertItem \<lparr>ItemId = ''a:b'', Timestamp = ''2024-01-01 00:00:00'',
          Labels = LabelsList [''rust'', ''cli'', ''rust''],
          Categories = [''rust'', ''cli'', ''rust''], Comment = Some ''hello''\<rparr>,
        DAdd ''repo'' ''a/b'', Print [] (Some rate_limited), Sleep 1800,
        Print ''Upsert stars:>100 topic:rust'' None,
        InsertItem \<lparr>ItemId = ''c:d'', Timestamp = ''2024-01-01 00:00:00'',
          Labels = LabelsList [''python'', ''python''],
          Categories = [''python'', ''python''], Comment = None\<rparr>,
        DAdd ''repo'' ''C/d'', DAdd ''topic'' ''rust''])"
  using retry_policy [where w = world_a and n = 0 and db = "[''topic'' \<mapsto> {}]"
      and t = "''rust''" and e = rate_limited and fuel = "Suc 0"
      and ?db1.0 = "[''topic'' \<mapsto> {}, ''repo'' \<mapsto> {''a/b''}]"
      and ?tr1.0 = "[Print ''Upsert stars:>100 topic:rust'' None, DCreate ''repo'',
        InsertItem \<lparr>ItemId = ''a:b'', Timestamp = ''2024-01-01 00:00:00'',
          Labels = LabelsList [''rust'', ''cli'', ''rust''],
          Categories = [''rust'', ''cli'', ''rust''], Comment = Some ''hello''\<rparr>,
        DAdd ''repo'' ''a/b'']"]
  by (simp add: evals)

text \<open>
  C7. The labels of a candidate, at a failing input. The source tests
  \<open>repo.language not in labels\<close> on the language as the registry spells it and appends
  its lowercased form: for the topics \<open>python\<close> and the language \<open>Python\<close> the
  lowercased language is among the tags already, and it is appended once more.
\<close>

theorem language_label_duplicated:
  "lower ''Python'' \<in> set [''python'']
   \<and> fetch_labels [''python''] (Some ''Python'') = [''python'', ''python'']"
  by (simp add: fetch_labels_def lower_def lower_char_def)

end
